theory Spec2Isabelle
  imports Main "HOL-Library.Word"
begin

unbundle bit_operations_syntax

section \<open>Frame codec of smarthoper.py\<close>

text \<open>
  Python integers are unbounded, so the CRC register and the packet elements are
  modelled as \<open>int\<close>; \<open>>>\<close> is \<open>drop_bit\<close>, \<open>&\<close>, \<open>|\<close> and \<open>^\<close> are \<open>AND\<close>,
  \<open>OR\<close> and \<open>XOR\<close>.
\<close>

definition CMD_SYNC :: int where "CMD_SYNC = 0x11"
definition CMD_SETUP_REQUEST :: int where "CMD_SETUP_REQUEST = 0x05"
definition CMD_ENABLE :: int where "CMD_ENABLE = 0x0A"
definition CMD_DISABLE :: int where "CMD_DISABLE = 0x09"
definition CMD_POLL :: int where "CMD_POLL = 0x07"
definition CMD_RESET :: int where "CMD_RESET = 0x01"

definition VENDOR_ID :: int where "VENDOR_ID = 0x191c"
definition PRODUCT_ID :: int where "PRODUCT_ID = 0x4104"

text \<open>One pass of the inner loop \<open>for _ in range(8)\<close> of \<open>calculate_crc\<close>.\<close>

definition crc_shift :: "int \<Rightarrow> int" where
  "crc_shift crc =
     (if crc AND 0x0001 \<noteq> 0 then drop_bit 1 crc XOR 0x8408 else drop_bit 1 crc)"

text \<open>One pass of the outer loop \<open>for b in data\<close>: \<open>crc ^= b\<close>, then eight shifts.\<close>

definition crc_byte :: "int \<Rightarrow> int \<Rightarrow> int" where
  "crc_byte crc b = (crc_shift ^^ 8) (crc XOR b)"

definition calculate_crc :: "int list \<Rightarrow> int" where
  "calculate_crc data = foldl crc_byte 0xFFFF data"

text \<open>
  The reference computation as the specification words it, on a 16-bit register and
  8-bit input bytes: the byte is XORed into the low byte of the register, then eight
  times the register is shifted right by one bit and XORed with 0x8408 exactly when its
  low bit was set before the shift. The register starts at 0xFFFF and is returned as it is.
\<close>

definition ref_shift :: "16 word \<Rightarrow> 16 word" where
  "ref_shift w = (if bit w 0 then drop_bit 1 w XOR 0x8408 else drop_bit 1 w)"

definition ref_byte :: "16 word \<Rightarrow> 8 word \<Rightarrow> 16 word" where
  "ref_byte w b = (ref_shift ^^ 8) (w XOR ucast b)"

definition checksum_ref :: "8 word list \<Rightarrow> 16 word" where
  "checksum_ref bs = foldl ref_byte 0xFFFF bs"

text \<open>
  Exceptions of the program: \<open>ValueError\<close> is what \<open>bytes(packet)\<close> raises when an
  element is outside \<open>range(256)\<close>; \<open>TransportFault\<close> stands for every exception of the
  serial port (\<open>serial.SerialException\<close>, \<open>OSError\<close>).
\<close>

datatype error = ValueError | TransportFault

definition bytes :: "int list \<Rightarrow> error + int list" where
  "bytes xs = (if list_all (\<lambda>x. 0 \<le> x \<and> x < 256) xs then Inr xs else Inl ValueError)"

text \<open>
  \<open>create_ssp_packet(command, sequence=0x80, data=None)\<close>. The default of \<open>sequence\<close>
  is written out by the callers; \<open>data=None\<close> is \<open>None\<close> here.
\<close>

definition create_ssp_packet :: "int \<Rightarrow> int \<Rightarrow> int list option \<Rightarrow> error + int list" where
  "create_ssp_packet command sequence data =
     (let data = (case data of None \<Rightarrow> [] | Some d \<Rightarrow> d);
          packet = [0x7F, sequence, int (length data) + 1, command] @ data;
          crc = calculate_crc packet
      in bytes (packet @ [crc AND 0xFF, drop_bit 8 crc AND 0xFF]))"

section \<open>The serial transport\<close>

text \<open>
  The serial port is an external collaborator. Every call the program makes on it is an
  event; the transport is any function that, from the events so far and the next
  one, either faults (the call raises) or replies (the bytes of a read; the reply of
  the other calls is not looked at). \<open>time.sleep\<close> and the \<open>close\<close> that leaving a
  \<open>with\<close> block performs are recorded as events and cannot fault. Logging is left out.
  A computation returns the error raised or its value, with the events performed.
\<close>

datatype event = Open string int | SetDTR bool | SetRTS bool | Sleep nat
  | ResetInput | ResetOutput | Write "int list" | Read nat | Close

datatype reply = Fault | Reply "int list"

type_synonym transport = "event list \<Rightarrow> event \<Rightarrow> reply"

type_synonym 'a exec = "(error \<times> event list) + ('a \<times> event list)"

definition perform :: "transport \<Rightarrow> event \<Rightarrow> event list \<Rightarrow> (int list) exec" where
  "perform env e tr =
     (case env tr e of Fault \<Rightarrow> Inl (TransportFault, tr @ [e]) | Reply bs \<Rightarrow> Inr (bs, tr @ [e]))"

definition sleep :: "nat \<Rightarrow> event list \<Rightarrow> (int list) exec" where
  "sleep ms tr = Inr ([], tr @ [Sleep ms])"

definition built :: "error + int list \<Rightarrow> event list \<Rightarrow> (int list) exec" where
  "built r tr = (case r of Inl err \<Rightarrow> Inl (err, tr) | Inr p \<Rightarrow> Inr (p, tr))"

definition then_do :: "'a exec \<Rightarrow> ('a \<Rightarrow> event list \<Rightarrow> 'b exec) \<Rightarrow> 'b exec" where
  "then_do m f = (case m of Inl err \<Rightarrow> Inl err | Inr (v, tr) \<Rightarrow> f v tr)"

section \<open>Parameter discovery: test_serial_port\<close>

record settings =
  port :: string
  baudrate :: int
  dtr :: bool
  rts :: bool

definition configurations :: "(bool \<times> bool) list" where
  "configurations = [(False, False), (True, False), (False, True), (True, True)]"

text \<open>The body of \<open>for dtr, rts in configurations\<close>: \<open>Some\<close> is the early \<open>return\<close>.\<close>

definition probe ::
  "transport \<Rightarrow> string \<Rightarrow> int \<Rightarrow> bool \<times> bool \<Rightarrow> event list \<Rightarrow> (settings option) exec" where
  "probe env port_name baud cfg tr =
     then_do (perform env (SetDTR (fst cfg)) tr) (\<lambda>_ tr.
     then_do (perform env (SetRTS (snd cfg)) tr) (\<lambda>_ tr.
     then_do (sleep 500 tr) (\<lambda>_ tr.
     then_do (perform env ResetInput tr) (\<lambda>_ tr.
     then_do (perform env ResetOutput tr) (\<lambda>_ tr.
     then_do (built (create_ssp_packet CMD_SYNC 0x80 None) tr) (\<lambda>sync_packet tr.
     then_do (perform env (Write sync_packet) tr) (\<lambda>_ tr.
     then_do (perform env (Read 64) tr) (\<lambda>response tr.
       if response \<noteq> [] then
         Inr (Some \<lparr>port = port_name, baudrate = baud, dtr = fst cfg, rts = snd cfg\<rparr>, tr)
       else
     then_do (perform env ResetInput tr) (\<lambda>_ tr.
     then_do (perform env ResetOutput tr) (\<lambda>_ tr.
     then_do (built (create_ssp_packet CMD_RESET 0x80 None) tr) (\<lambda>reset_packet tr.
     then_do (perform env (Write reset_packet) tr) (\<lambda>_ tr.
     then_do (perform env (Read 64) tr) (\<lambda>response tr.
       if response \<noteq> [] then
         Inr (Some \<lparr>port = port_name, baudrate = baud, dtr = fst cfg, rts = snd cfg\<rparr>, tr)
       else Inr (None, tr))))))))))))))"

text \<open>The loop \<open>for dtr, rts in configurations\<close> inside the \<open>with\<close> block.\<close>

fun try_configurations ::
  "transport \<Rightarrow> string \<Rightarrow> int \<Rightarrow> (bool \<times> bool) list \<Rightarrow> event list \<Rightarrow> (settings option) exec" where
  "try_configurations env port_name baud [] tr = Inr (None, tr)"
| "try_configurations env port_name baud (cfg # cfgs) tr =
     (case probe env port_name baud cfg tr of
        Inl err \<Rightarrow> Inl err
      | Inr (Some found, tr') \<Rightarrow> Inr (Some found, tr')
      | Inr (None, tr') \<Rightarrow> try_configurations env port_name baud cfgs tr')"

text \<open>
  The body of \<open>for baud in baud_rates\<close> inside its \<open>try\<close>:
  \<open>with serial.Serial(...) as ser: ...\<close>. A fault of the constructor leaves nothing
  to close; leaving the block closes the port, whether by a fault, by the \<open>return\<close>
  or at its end.
\<close>

definition try_baud ::
  "transport \<Rightarrow> string \<Rightarrow> int \<Rightarrow> event list \<Rightarrow> (settings option) exec" where
  "try_baud env port_name baud tr =
     (case perform env (Open port_name baud) tr of
        Inl err \<Rightarrow> Inl err
      | Inr (_, tr1) \<Rightarrow>
          (case try_configurations env port_name baud configurations tr1 of
             Inl (err, tr2) \<Rightarrow> Inl (err, tr2 @ [Close])
           | Inr (found, tr2) \<Rightarrow> Inr (found, tr2 @ [Close])))"

text \<open>
  The loop \<open>for baud in baud_rates\<close>: \<open>except Exception\<close> catches the fault of one
  pass and the loop goes on with the next baud rate; after the loop \<open>None\<close> is returned.
\<close>

fun try_bauds ::
  "transport \<Rightarrow> string \<Rightarrow> int list \<Rightarrow> event list \<Rightarrow> settings option \<times> event list" where
  "try_bauds env port_name [] tr = (None, tr)"
| "try_bauds env port_name (baud # bauds) tr =
     (case try_baud env port_name baud tr of
        Inl (err, tr') \<Rightarrow> try_bauds env port_name bauds tr'
      | Inr (Some found, tr') \<Rightarrow> (Some found, tr')
      | Inr (None, tr') \<Rightarrow> try_bauds env port_name bauds tr')"

text \<open>
  \<open>test_serial_port(port_name, baud_rates=None)\<close>. The check of the access rights that
  comes first calls the operating system only, assigns nothing and catches every
  exception, so it does not reach the transport or the result; it is left out.
\<close>

definition test_serial_port ::
  "transport \<Rightarrow> string \<Rightarrow> int list option \<Rightarrow> event list \<Rightarrow> settings option \<times> event list" where
  "test_serial_port env port_name baud_rates tr =
     try_bauds env port_name
       (case baud_rates of None \<Rightarrow> [9600, 19200, 38400, 115200] | Some bs \<Rightarrow> bs) tr"

section \<open>Command sequencing: main\<close>

text \<open>The body of \<open>for i in range(3)\<close>.\<close>

definition poll_once :: "transport \<Rightarrow> int \<Rightarrow> int \<Rightarrow> event list \<Rightarrow> unit exec" where
  "poll_once env sequence i tr =
     then_do (built (create_ssp_packet CMD_POLL (0x80 OR ((sequence + i + 1) AND 0x7F)) None) tr)
       (\<lambda>poll_packet tr.
     then_do (perform env (Write poll_packet) tr) (\<lambda>_ tr.
     then_do (sleep 500 tr) (\<lambda>_ tr.
     then_do (perform env (Read 64) tr) (\<lambda>poll_response tr. Inr ((), tr)))))"

fun extra_polls :: "transport \<Rightarrow> int \<Rightarrow> int list \<Rightarrow> event list \<Rightarrow> unit exec" where
  "extra_polls env sequence [] tr = Inr ((), tr)"
| "extra_polls env sequence (i # rest) tr =
     (case poll_once env sequence i tr of
        Inl err \<Rightarrow> Inl err
      | Inr (_, tr') \<Rightarrow> extra_polls env sequence rest tr')"

text \<open>The body of \<open>for cmd, name in commands\<close> up to the update of \<open>sequence\<close>.\<close>

definition send_command :: "transport \<Rightarrow> int \<Rightarrow> int \<Rightarrow> event list \<Rightarrow> unit exec" where
  "send_command env cmd sequence tr =
     then_do (built (create_ssp_packet cmd sequence None) tr) (\<lambda>packet tr.
     then_do (perform env (Write packet) tr) (\<lambda>_ tr.
     then_do (sleep 500 tr) (\<lambda>_ tr.
     then_do (perform env (Read 64) tr) (\<lambda>response tr.
       if response \<noteq> [] then
         (if cmd = CMD_POLL then extra_polls env sequence [0, 1, 2] tr else Inr ((), tr))
       else Inr ((), tr)))))"

text \<open>The loop over the commands; the value returned is \<open>sequence\<close> after the loop.\<close>

fun run_commands ::
  "transport \<Rightarrow> (int \<times> string) list \<Rightarrow> int \<Rightarrow> event list \<Rightarrow> int exec" where
  "run_commands env [] sequence tr = Inr (sequence, tr)"
| "run_commands env ((cmd, name) # rest) sequence tr =
     (case send_command env cmd sequence tr of
        Inl err \<Rightarrow> Inl err
      | Inr (_, tr') \<Rightarrow> run_commands env rest (0x80 OR ((sequence + 1) AND 0x7F)) tr')"

definition commands :: "(int \<times> string) list" where
  "commands = [(CMD_SYNC, ''SYNC''), (CMD_SETUP_REQUEST, ''SETUP_REQUEST''),
               (CMD_ENABLE, ''ENABLE''), (CMD_POLL, ''POLL'')]"

text \<open>Step 4 of \<open>main\<close>: the \<open>with\<close> block, before the \<open>except\<close> that turns a fault into 1.\<close>

definition run_session :: "transport \<Rightarrow> settings \<Rightarrow> event list \<Rightarrow> int exec" where
  "run_session env s tr =
     (case perform env (Open (port s) (baudrate s)) tr of
        Inl err \<Rightarrow> Inl err
      | Inr (_, tr1) \<Rightarrow>
          (case then_do (perform env (SetDTR (dtr s)) tr1) (\<lambda>_ tr.
                then_do (perform env (SetRTS (rts s)) tr) (\<lambda>_ tr.
                then_do (perform env ResetInput tr) (\<lambda>_ tr.
                then_do (perform env ResetOutput tr) (\<lambda>_ tr.
                  run_commands env commands 0x80 tr)))) of
             Inl (err, tr2) \<Rightarrow> Inl (err, tr2 @ [Close])
           | Inr (v, tr2) \<Rightarrow> Inr (v, tr2 @ [Close])))"

text \<open>
  \<open>identify_device\<close> over the ports that \<open>comports()\<close> lists; \<open>vid\<close> and \<open>pid\<close> are
  \<open>None\<close> for a port that is not a USB device.
\<close>

record port_info =
  vid :: "int option"
  pid :: "int option"
  device :: string

fun identify_device :: "port_info list \<Rightarrow> string option" where
  "identify_device [] = None"
| "identify_device (p # ps) =
     (if vid p = Some VENDOR_ID \<and> pid p = Some PRODUCT_ID then Some (device p)
      else identify_device ps)"

text \<open>
  \<open>main\<close>: the exit status and the events. \<open>if not port\<close> also holds for an empty
  device name. \<open>create_udev_rule\<close> writes a file, catches every exception and returns
  nothing, so it is left out. The dictionary that \<open>test_serial_port\<close> returns has four
  keys, so \<open>if not settings\<close> holds for \<open>None\<close> only.
\<close>

definition main :: "port_info list \<Rightarrow> transport \<Rightarrow> int \<times> event list" where
  "main comports env =
     (case identify_device comports of
        None \<Rightarrow> (1, [])
      | Some port_name \<Rightarrow>
          if port_name = [] then (1, [])
          else
            (case test_serial_port env port_name None [] of
               (None, tr) \<Rightarrow> (1, tr)
             | (Some found, tr) \<Rightarrow>
                 (case run_session env found tr of
                    Inl (err, tr') \<Rightarrow> (1, tr')
                  | Inr (_, tr') \<Rightarrow> (0, tr'))))"

section \<open>Observations on the events\<close>

text \<open>The packets written, and the baud rates of the ports opened, in order.\<close>

fun writes :: "event list \<Rightarrow> int list list" where
  "writes [] = []"
| "writes (Write p # es) = p # writes es"
| "writes (e # es) = writes es"

fun opens :: "event list \<Rightarrow> int list" where
  "opens [] = []"
| "opens (Open p b # es) = b # opens es"
| "opens (e # es) = opens es"

definition trace_of :: "'a exec \<Rightarrow> event list" where
  "trace_of m = (case m of Inl (err, tr) \<Rightarrow> tr | Inr (v, tr) \<Rightarrow> tr)"

definition reply_bytes :: "reply \<Rightarrow> int list" where
  "reply_bytes r = (case r of Fault \<Rightarrow> [] | Reply bs \<Rightarrow> bs)"

text \<open>The line settings in force after some events: the last baud rate opened, the
  last DTR and RTS levels set.\<close>

record line =
  l_baud :: int
  l_dtr :: bool
  l_rts :: bool

fun line_step :: "line \<Rightarrow> event \<Rightarrow> line" where
  "line_step l (Open p b) = l\<lparr>l_baud := b\<rparr>"
| "line_step l (SetDTR d) = l\<lparr>l_dtr := d\<rparr>"
| "line_step l (SetRTS r) = l\<lparr>l_rts := r\<rparr>"
| "line_step l e = l"

definition line_of :: "event list \<Rightarrow> line" where
  "line_of tr = foldl line_step \<lparr>l_baud = 0, l_dtr = False, l_rts = False\<rparr> tr"

text \<open>
  The events of one candidate (DTR, RTS) when neither probe is answered: the SYNC probe
  \<open>7F 80 01 11 A1 FF\<close>, then the RESET probe \<open>7F 80 01 01 20 EF\<close>. The schedule of a
  discovery is these rounds for the four configurations in order, between the opening and
  the closing of the port, for every baud rate in order.
\<close>

definition silent_round :: "bool \<times> bool \<Rightarrow> event list" where
  "silent_round cfg =
     [SetDTR (fst cfg), SetRTS (snd cfg), Sleep 500, ResetInput, ResetOutput,
      Write [0x7F, 0x80, 0x01, 0x11, 0xA1, 0xFF], Read 64, ResetInput, ResetOutput,
      Write [0x7F, 0x80, 0x01, 0x01, 0x20, 0xEF], Read 64]"

definition schedule :: "string \<Rightarrow> int list \<Rightarrow> event list" where
  "schedule p bauds =
     concat (map (\<lambda>b. Open p b # concat (map silent_round configurations) @ [Close]) bauds)"

text \<open>
  Following a schedule up to the first read that returns bytes: the events before it,
  the read and the closing of the port are performed and nothing else, and the line
  settings then in force are returned.
\<close>

fun first_response ::
  "transport \<Rightarrow> string \<Rightarrow> event list \<Rightarrow> event list \<Rightarrow> settings option \<times> event list" where
  "first_response env p done [] = (None, done)"
| "first_response env p done (Read n # es) =
     (if env done (Read n) = Reply [] then first_response env p (done @ [Read n]) es
      else (Some \<lparr>port = p, baudrate = l_baud (line_of done), dtr = l_dtr (line_of done),
                  rts = l_rts (line_of done)\<rparr>, done @ [Read n, Close]))"
| "first_response env p done (e # es) = first_response env p (done @ [e]) es"

text \<open>
  Following a schedule on a transport that may fault. A fault of any call is caught: the
  port, unless it is the opening that faulted, is closed, everything that the schedule
  still holds for this baud rate is skipped (\<open>after_close\<close>: the rest up to and with the
  next \<open>Close\<close>), and the schedule of the next baud rate is followed. A read that
  returns bytes ends the discovery as in \<open>first_response\<close>.
\<close>

definition after_close :: "event list \<Rightarrow> event list" where
  "after_close es = tl (dropWhile (\<lambda>e. e \<noteq> Close) es)"

function follow ::
  "transport \<Rightarrow> string \<Rightarrow> event list \<Rightarrow> event list \<Rightarrow> settings option \<times> event list" where
  "follow env p done [] = (None, done)"
| "follow env p done (Close # es) = follow env p (done @ [Close]) es"
| "follow env p done (Sleep ms # es) = follow env p (done @ [Sleep ms]) es"
| "follow env p done (Open q b # es) =
     (case env done (Open q b) of
        Fault \<Rightarrow> follow env p (done @ [Open q b]) (after_close es)
      | Reply bs \<Rightarrow> follow env p (done @ [Open q b]) es)"
| "follow env p done (Read n # es) =
     (case env done (Read n) of
        Fault \<Rightarrow> follow env p (done @ [Read n, Close]) (after_close es)
      | Reply bs \<Rightarrow>
          if bs = [] then follow env p (done @ [Read n]) es
          else (Some \<lparr>port = p, baudrate = l_baud (line_of done), dtr = l_dtr (line_of done),
                      rts = l_rts (line_of done)\<rparr>, done @ [Read n, Close]))"
| "follow env p done (SetDTR d # es) =
     (case env done (SetDTR d) of
        Fault \<Rightarrow> follow env p (done @ [SetDTR d, Close]) (after_close es)
      | Reply bs \<Rightarrow> follow env p (done @ [SetDTR d]) es)"
| "follow env p done (SetRTS r # es) =
     (case env done (SetRTS r) of
        Fault \<Rightarrow> follow env p (done @ [SetRTS r, Close]) (after_close es)
      | Reply bs \<Rightarrow> follow env p (done @ [SetRTS r]) es)"
| "follow env p done (ResetInput # es) =
     (case env done ResetInput of
        Fault \<Rightarrow> follow env p (done @ [ResetInput, Close]) (after_close es)
      | Reply bs \<Rightarrow> follow env p (done @ [ResetInput]) es)"
| "follow env p done (ResetOutput # es) =
     (case env done ResetOutput of
        Fault \<Rightarrow> follow env p (done @ [ResetOutput, Close]) (after_close es)
      | Reply bs \<Rightarrow> follow env p (done @ [ResetOutput]) es)"
| "follow env p done (Write w # es) =
     (case env done (Write w) of
        Fault \<Rightarrow> follow env p (done @ [Write w, Close]) (after_close es)
      | Reply bs \<Rightarrow> follow env p (done @ [Write w]) es)"
  by pat_completeness auto
termination
proof -
  have shorter: "length (after_close es) < Suc (length es)" for es
    using length_dropWhile_le [of "\<lambda>e. e \<noteq> Close" es] by (simp add: after_close_def)
  show ?thesis
    by (relation "measure (\<lambda>(env, p, seen, es). length es)") (auto simp: shorter)
qed

text \<open>The update of the sequence counter at the end of each pass of the command loop.\<close>

definition advance :: "int \<Rightarrow> int" where
  "advance sequence = 0x80 OR ((sequence + 1) AND 0x7F)"

text \<open>
  The packet of a command without data, as the specification lays it out: start byte,
  sequence byte, length 1, command, and the checksum of these four, low byte first.
\<close>

definition frame :: "int \<Rightarrow> int \<Rightarrow> int list" where
  "frame command sequence =
     [0x7F, sequence, 1, command,
      calculate_crc [0x7F, sequence, 1, command] mod 256,
      calculate_crc [0x7F, sequence, 1, command] div 256]"

text \<open>The events of one command that is sent with packet \<open>p\<close>.\<close>

definition exchange :: "int list \<Rightarrow> event list" where
  "exchange p = [Write p, Sleep 500, Read 64]"

subsection \<open>Simulated transports\<close>

text \<open>A transport that never answers and never faults.\<close>

definition silent :: transport where
  "silent h e = Reply []"

text \<open>A transport that answers every read.\<close>

definition responsive :: transport where
  "responsive h e = (case e of Read n \<Rightarrow> Reply [0xF0] | _ \<Rightarrow> Reply [])"

text \<open>A transport that answers only at 38400 baud with DTR on and RTS off.\<close>

definition only_38400 :: transport where
  "only_38400 h e =
     (case e of
        Read n \<Rightarrow>
          if l_baud (line_of h) = 38400 \<and> l_dtr (line_of h) = True \<and> l_rts (line_of h) = False
          then Reply [0xF0] else Reply []
      | _ \<Rightarrow> Reply [])"

text \<open>A transport whose first write faults and that never answers.\<close>

definition first_write_faults :: transport where
  "first_write_faults h e =
     (case e of Write p \<Rightarrow> if writes h = [] then Fault else Reply [] | _ \<Rightarrow> Reply [])"

text \<open>A transport that answers every read and faults when a port is opened a second time.\<close>

definition second_open_faults :: transport where
  "second_open_faults h e =
     (case e of
        Read n \<Rightarrow> Reply [0xF0]
      | Open p b \<Rightarrow> if opens h = [] then Reply [] else Fault
      | _ \<Rightarrow> Reply [])"

text \<open>A transport that answers the first read only.\<close>

definition first_read_only :: transport where
  "first_read_only h e =
     (case e of
        Read n \<Rightarrow>
          if list_all (\<lambda>x. case x of Read m \<Rightarrow> False | _ \<Rightarrow> True) h then Reply [0xF0]
          else Reply []
      | _ \<Rightarrow> Reply [])"

definition hopper :: port_info where
  "hopper = \<lparr>vid = Some 0x191c, pid = Some 0x4104, device = ''/dev/ttyUSB0''\<rparr>"

section \<open>The checksum\<close>

lemma low_bit_int: "(k AND 1 \<noteq> 0) = odd (k::int)"
  by (simp add: and_one_eq odd_iff_mod_2_eq_one)

lemma uint_ref_shift: "uint (ref_shift w) = crc_shift (uint w)"
proof -
  have m: "uint w mod 65536 = uint w"
    using uint_bounded [of w] by simp
  have d: "uint (drop_bit 1 w) = drop_bit 1 (uint w)"
    by (simp add: unsigned_drop_bit_eq take_bit_eq_mod m)
  have b: "bit w 0 = odd (uint w)"
    using bit_uint_iff [of w 0] by (simp add: bit_0)
  show ?thesis
    using d by (simp add: ref_shift_def crc_shift_def uint_xor b low_bit_int)
qed

lemma uint_ref_shift_pow: "uint ((ref_shift ^^ n) w) = (crc_shift ^^ n) (uint w)"
  by (induction n) (simp_all add: uint_ref_shift)

lemma uint_byte:
  "0 \<le> b \<Longrightarrow> b < 256 \<Longrightarrow> uint (ucast (word_of_int b :: 8 word) :: 16 word) = b"
  by (simp add: uint_up_ucast is_up uint_word_of_int)

lemma uint_ref_byte:
  "0 \<le> b \<Longrightarrow> b < 256 \<Longrightarrow> uint (ref_byte w (word_of_int b)) = crc_byte (uint w) b"
  by (simp add: ref_byte_def crc_byte_def uint_ref_shift_pow uint_xor uint_byte
      del: funpow.simps)

lemma foldl_crc_ref:
  "\<forall>b\<in>set data. 0 \<le> b \<and> b < 256 \<Longrightarrow>
   foldl crc_byte (uint w) data = uint (foldl ref_byte w (map word_of_int data))"
  by (induction data arbitrary: w) (simp_all add: uint_ref_byte [symmetric])

lemma crc_is_ref:
  "\<forall>b\<in>set data. 0 \<le> b \<and> b < 256 \<Longrightarrow>
   calculate_crc data = uint (checksum_ref (map word_of_int data))"
  using foldl_crc_ref [of data "0xFFFF"] by (simp add: calculate_crc_def checksum_ref_def)

lemma calculate_crc_bounds:
  assumes "\<forall>b\<in>set data. 0 \<le> b \<and> b < 256"
  shows "0 \<le> calculate_crc data" and "calculate_crc data < 65536"
proof -
  have "uint (checksum_ref (map word_of_int data)) < 2 ^ 16"
    using uint_bounded [of "checksum_ref (map word_of_int data)"] by simp
  then show "calculate_crc data < 65536" using crc_is_ref [OF assms] by simp
  show "0 \<le> calculate_crc data" using crc_is_ref [OF assms] by simp
qed

lemma crc_sync_header: "calculate_crc [0x7F, 0x80, 1, 0x11] = 0xFFA1"
  by code_simp

lemma crc_reset_header: "calculate_crc [0x7F, 0x80, 1, 0x01] = 0xEF20"
  by code_simp

text \<open>
  C1. For every sequence of bytes (each in 0..255) \<open>calculate_crc\<close> is the reference
  CRC-16: register 0xFFFF at the start, each byte XORed into the low byte, eight
  conditional shift-and-XOR steps with 0x8408, and no final XOR. The 16-bit register
  of the reference, read as an unsigned number, is the Python integer the code
  returns. The empty sequence gives 0xFFFF. The result is a function of the input.
\<close>

theorem calculate_crc_reference:
  assumes "\<forall>b\<in>set data. 0 \<le> b \<and> b < 256"
  shows "calculate_crc data = uint (checksum_ref (map word_of_int data)) \<and>
         calculate_crc [] = 0xFFFF \<and>
         (\<forall>data'. data' = data \<longrightarrow> calculate_crc data' = calculate_crc data)"
  using crc_is_ref [OF assms] by (simp add: calculate_crc_def)

theorem calculate_crc_reference_witness:
  "calculate_crc [0x7F, 0x80, 1, 0x11] = uint (checksum_ref [0x7F, 0x80, 1, 0x11]) \<and>
   calculate_crc [] = 0xFFFF"
  using calculate_crc_reference [of "[0x7F, 0x80, 1, 0x11]"] by simp

section \<open>The packet builder\<close>

lemma and_255: "(k::int) AND 255 = k mod 256"
  using take_bit_eq_mask [of 8 k] by (simp add: take_bit_eq_mod mask_eq_exp_minus_1)

lemma crc_low_byte: "0 \<le> (k::int) AND 255" "(k::int) AND 255 < 256"
  by (simp_all add: and_255)

lemma crc_high_byte: "0 \<le> drop_bit 8 (k::int) AND 255" "drop_bit 8 (k::int) AND 255 < 256"
  by (simp_all add: and_255)

lemma crc_high_byte_div:
  "0 \<le> k \<Longrightarrow> k < 65536 \<Longrightarrow> drop_bit 8 (k::int) AND 255 = k div 256"
  by (simp add: and_255 drop_bit_eq_div)

lemma bytes_ok: "\<forall>x\<in>set xs. 0 \<le> x \<and> x < 256 \<Longrightarrow> bytes xs = Inr xs"
  by (simp add: bytes_def list_all_iff)

lemma bytes_bad:
  assumes "x \<in> set xs" and "256 \<le> x"
  shows "bytes xs = Inl ValueError"
proof -
  have "\<not> (0 \<le> x \<and> x < 256)" using assms(2) by simp
  then have "\<not> (\<forall>y\<in>set xs. 0 \<le> y \<and> y < 256)" using assms(1) by blast
  then show ?thesis by (simp add: bytes_def list_all_iff)
qed

lemma packet_too_long:
  "254 < length data \<Longrightarrow> create_ssp_packet command sequence (Some data) = Inl ValueError"
  unfolding create_ssp_packet_def Let_def
  by (rule bytes_bad [where x = "int (length data) + 1"]) simp_all

lemma packet_built:
  assumes "0 \<le> command" "command < 256" "0 \<le> sequence" "sequence < 256"
    and "\<forall>b\<in>set data. 0 \<le> b \<and> b < 256" and "length data \<le> 254"
  shows "create_ssp_packet command sequence (Some data) =
           Inr (([0x7F, sequence, int (length data) + 1, command] @ data) @
                [calculate_crc ([0x7F, sequence, int (length data) + 1, command] @ data) mod 256,
                 calculate_crc ([0x7F, sequence, int (length data) + 1, command] @ data) div 256])"
proof -
  let ?hdr = "[0x7F, sequence, int (length data) + 1, command] @ data"
  have hdr: "\<forall>b\<in>set ?hdr. 0 \<le> b \<and> b < 256"
    using assms by auto
  have lo: "0 \<le> calculate_crc ?hdr" and hi: "calculate_crc ?hdr < 65536"
    using calculate_crc_bounds [OF hdr] by blast+
  have all: "\<forall>b\<in>set (?hdr @ [calculate_crc ?hdr AND 0xFF, drop_bit 8 (calculate_crc ?hdr) AND 0xFF]).
      0 \<le> b \<and> b < 256"
    using hdr crc_low_byte [of "calculate_crc ?hdr"] crc_high_byte [of "calculate_crc ?hdr"]
    by auto
  have "create_ssp_packet command sequence (Some data) =
      Inr (?hdr @ [calculate_crc ?hdr AND 0xFF, drop_bit 8 (calculate_crc ?hdr) AND 0xFF])"
    unfolding create_ssp_packet_def Let_def option.case by (rule bytes_ok [OF all])
  then have "create_ssp_packet command sequence (Some data) =
      Inr (?hdr @ [calculate_crc ?hdr AND 0xFF, calculate_crc ?hdr div 256])"
    by (simp only: crc_high_byte_div [OF lo hi])
  then show ?thesis
    by (simp only: and_255)
qed

text \<open>
  C2. For a command byte, a sequence byte and 0 to 254 data bytes, \<open>create_ssp_packet\<close>
  returns \<open>[0x7F, sequence, len(data)+1, command] ++ data ++ [crc_low, crc_high]\<close>:
  the element at index 2 is \<open>len(data)+1\<close>, and the last two bytes are the low and the
  high byte of \<open>calculate_crc\<close> of everything before them, a value below 65536.
\<close>

theorem create_ssp_packet_layout:
  assumes "0 \<le> command" "command < 256" "0 \<le> sequence" "sequence < 256"
    and "\<forall>b\<in>set data. 0 \<le> b \<and> b < 256" and "length data \<le> 254"
  shows "\<exists>crc. crc = calculate_crc ([0x7F, sequence, int (length data) + 1, command] @ data) \<and>
           0 \<le> crc \<and> crc < 65536 \<and>
           create_ssp_packet command sequence (Some data) =
             Inr ([0x7F, sequence, int (length data) + 1, command] @ data @
                  [crc mod 256, crc div 256]) \<and>
           ([0x7F, sequence, int (length data) + 1, command] @ data @
                  [crc mod 256, crc div 256]) ! 2 = int (length data) + 1"
proof -
  let ?hdr = "[0x7F, sequence, int (length data) + 1, command] @ data"
  have hdr: "\<forall>b\<in>set ?hdr. 0 \<le> b \<and> b < 256"
    using assms by auto
  have lo: "0 \<le> calculate_crc ?hdr" and hi: "calculate_crc ?hdr < 65536"
    using calculate_crc_bounds [OF hdr] by blast+
  show ?thesis
    using packet_built [OF assms] lo hi by simp
qed

theorem create_ssp_packet_layout_witness:
  "create_ssp_packet 0x11 0x80 (Some []) = Inr [0x7F, 0x80, 1, 0x11, 0xA1, 0xFF]"
  using create_ssp_packet_layout [of "0x11" "0x80" "[]"] by (simp add: crc_sync_header)

text \<open>
  C9 (as the code has it). A data sequence of more than 254 elements makes the length
  element \<open>len(data)+1\<close> at least 256, so \<open>bytes(packet)\<close> raises \<open>ValueError\<close>:
  no packet is returned and no length byte wraps around.
\<close>

theorem create_ssp_packet_oversized:
  assumes "254 < length data"
  shows "create_ssp_packet command sequence (Some data) = Inl ValueError"
  using assms by (rule packet_too_long)

theorem create_ssp_packet_oversized_witness:
  "254 < length (replicate 255 (0::int)) \<and>
   create_ssp_packet 0x07 0x80 (Some (replicate 255 0)) = Inl ValueError"
  using create_ssp_packet_oversized [of "replicate 255 0" "0x07" "0x80"] by simp

text \<open>
  C9 as claimed fails: with 300 data bytes the builder does not complete, so there is
  no packet whose length byte could be \<open>(300 + 1) mod 256\<close>.
\<close>

theorem create_ssp_packet_wrap_counterexample:
  "create_ssp_packet 0x07 0x80 (Some (replicate 300 0)) = Inl ValueError"
  by (rule packet_too_long) simp

section \<open>Reasoning about computations\<close>

lemma sync_probe: "create_ssp_packet CMD_SYNC 0x80 None = Inr [0x7F, 0x80, 0x01, 0x11, 0xA1, 0xFF]"
  by code_simp

lemma reset_probe: "create_ssp_packet CMD_RESET 0x80 None = Inr [0x7F, 0x80, 0x01, 0x01, 0x20, 0xEF]"
  by code_simp

lemma then_do_Inr [simp]: "then_do (Inr (v, tr)) f = f v tr"
  by (simp add: then_do_def)

lemma then_do_Inl [simp]: "then_do (Inl err) f = Inl err"
  by (simp add: then_do_def)

lemma then_do_eq_Inr:
  "then_do m f = Inr r \<longleftrightarrow> (\<exists>v tr. m = Inr (v, tr) \<and> f v tr = Inr r)"
  by (cases m) (auto simp: then_do_def)

lemma perform_total:
  "\<forall>h e. env h e \<noteq> Fault \<Longrightarrow> perform env e tr = Inr (reply_bytes (env tr e), tr @ [e])"
  by (cases "env tr e") (simp_all add: perform_def reply_bytes_def)

lemma reply_empty:
  "\<forall>h e. env h e \<noteq> Fault \<Longrightarrow> (env h e = Reply []) = (reply_bytes (env h e) = [])"
  by (cases "env h e") (simp_all add: reply_bytes_def)

lemma writes_append: "writes (xs @ ys) = writes xs @ writes ys"
  by (induction xs rule: writes.induct) simp_all

lemma opens_append: "opens (xs @ ys) = opens xs @ opens ys"
  by (induction xs rule: opens.induct) simp_all

lemma line_of_append [simp]: "line_of (tr @ es) = foldl line_step (line_of tr) es"
  by (simp add: line_of_def)

section \<open>Discovery on a transport that never answers\<close>

lemma probe_silent:
  assumes nf: "\<forall>h e. env h e \<noteq> Fault" and em: "\<forall>h n. env h (Read n) = Reply []"
  shows "probe env p b cfg tr = Inr (None, tr @ silent_round cfg)"
  by (simp add: probe_def perform_total [OF nf] em reply_bytes_def
      sleep_def built_def sync_probe reset_probe silent_round_def)

lemma try_configurations_silent:
  assumes nf: "\<forall>h e. env h e \<noteq> Fault" and em: "\<forall>h n. env h (Read n) = Reply []"
  shows "try_configurations env p b cfgs tr = Inr (None, tr @ concat (map silent_round cfgs))"
  by (induction cfgs arbitrary: tr) (simp_all add: probe_silent [OF nf em])

lemma try_bauds_silent:
  assumes nf: "\<forall>h e. env h e \<noteq> Fault" and em: "\<forall>h n. env h (Read n) = Reply []"
  shows "try_bauds env p bauds tr = (None, tr @ schedule p bauds)"
proof (induction bauds arbitrary: tr)
  case Nil
  show ?case by (simp add: schedule_def)
next
  case (Cons b bs)
  have sch: "schedule p (b # bs) =
      Open p b # concat (map silent_round configurations) @ Close # schedule p bs"
    by (simp add: schedule_def)
  show ?case
    by (simp add: try_baud_def perform_total [OF nf] try_configurations_silent [OF nf em]
        Cons.IH sch)
qed

lemma writes_schedule:
  "writes (schedule p [9600, 19200, 38400, 115200]) =
     concat (replicate 16 [[0x7F, 0x80, 0x01, 0x11, 0xA1, 0xFF], [0x7F, 0x80, 0x01, 0x01, 0x20, 0xEF]])"
  by (simp add: schedule_def configurations_def silent_round_def writes_append numeral_eq_Suc)

text \<open>
  C3. On a transport that never faults and never returns bytes, discovery with the
  default baud rates returns \<open>None\<close> (it does not raise) after exactly 32 packet
  writes: the SYNC probe followed by the RESET probe, sixteen times.
\<close>

theorem discovery_silent:
  assumes "\<forall>h e. env h e \<noteq> Fault" and "\<forall>h n. env h (Read n) = Reply []"
  shows "fst (test_serial_port env p None []) = None \<and>
         writes (snd (test_serial_port env p None [])) =
           concat (replicate 16 [[0x7F, 0x80, 0x01, 0x11, 0xA1, 0xFF],
                                 [0x7F, 0x80, 0x01, 0x01, 0x20, 0xEF]]) \<and>
         length (writes (snd (test_serial_port env p None []))) = 32"
  unfolding test_serial_port_def option.case try_bauds_silent [OF assms]
  by (simp add: writes_schedule length_concat sum_list_replicate)

theorem discovery_silent_witness:
  "fst (test_serial_port silent ''/dev/ttyUSB0'' None []) = None \<and>
   length (writes (snd (test_serial_port silent ''/dev/ttyUSB0'' None []))) = 32"
proof -
  have "\<forall>h e. silent h e \<noteq> Fault" and "\<forall>h n. silent h (Read n) = Reply []"
    by (simp_all add: silent_def)
  from discovery_silent [OF this, of "''/dev/ttyUSB0''"] show ?thesis by blast
qed


section \<open>Order and early exit\<close>

lemma configs_first_response:
  assumes nf: "\<forall>h e. env h e \<noteq> Fault"
  shows "l_baud (line_of tr) = b \<Longrightarrow>
    first_response env p tr (concat (map silent_round cfgs) @ Close # rest) =
      (case try_configurations env p b cfgs tr of
         Inl (err, t) \<Rightarrow> first_response env p (t @ [Close]) rest
       | Inr (None, t) \<Rightarrow> first_response env p (t @ [Close]) rest
       | Inr (Some s, t) \<Rightarrow> (Some s, t @ [Close]))"
proof (induction cfgs arbitrary: tr)
  case Nil
  then show ?case by simp
next
  case (Cons cfg cfgs)
  have hd: "concat (map silent_round (cfg # cfgs)) @ Close # rest =
      SetDTR (fst cfg) # SetRTS (snd cfg) # Sleep 500 # ResetInput # ResetOutput #
      Write [0x7F, 0x80, 0x01, 0x11, 0xA1, 0xFF] # Read 64 # ResetInput # ResetOutput #
      Write [0x7F, 0x80, 0x01, 0x01, 0x20, 0xEF] # Read 64 #
      (concat (map silent_round cfgs) @ Close # rest)"
    by (simp add: silent_round_def)
  show ?case
    unfolding hd using Cons.prems
    by (simp add: probe_def perform_total [OF nf] reply_empty [OF nf]
        sleep_def built_def sync_probe reset_probe Cons.IH)
qed

lemma bauds_first_response:
  assumes nf: "\<forall>h e. env h e \<noteq> Fault"
  shows "try_bauds env p bauds tr = first_response env p tr (schedule p bauds)"
proof (induction bauds arbitrary: tr)
  case Nil
  show ?case by (simp add: schedule_def)
next
  case (Cons b bs)
  have sch: "schedule p (b # bs) =
      Open p b # (concat (map silent_round configurations) @ Close # schedule p bs)"
    by (simp add: schedule_def)
  have "l_baud (line_of (tr @ [Open p b])) = b" by simp
  from configs_first_response [OF nf this, of p configurations "schedule p bs"]
  show ?case
    unfolding sch
    by (simp add: try_baud_def perform_total [OF nf] Cons.IH
        split: sum.splits prod.splits option.splits)
qed

lemma only_38400_total: "\<forall>h e. only_38400 h e \<noteq> Fault"
  by (simp add: only_38400_def split: event.splits)

lemma only_38400_first_response:
  "fst (first_response only_38400 ''/dev/ttyUSB0'' []
          (schedule ''/dev/ttyUSB0'' [9600, 19200, 38400, 115200])) =
     Some \<lparr>port = ''/dev/ttyUSB0'', baudrate = 38400, dtr = True, rts = False\<rparr> \<and>
   length (writes (snd (first_response only_38400 ''/dev/ttyUSB0'' []
          (schedule ''/dev/ttyUSB0'' [9600, 19200, 38400, 115200])))) = 19"
  by code_simp

text \<open>
  C4. On a transport that never faults, discovery follows the fixed schedule: baud
  rates in the order listed, for each the four configurations (false,false),
  (true,false), (false,true), (true,true), for each the SYNC probe before the RESET
  probe. At the first read that returns bytes it returns the baud rate, DTR and RTS
  then in force, and the only further event is the closing of the port. The
  transport that answers only at 38400 baud with DTR on and RTS off gives exactly that
  configuration, after 19 writes.
\<close>

theorem discovery_first_response:
  assumes "\<forall>h e. env h e \<noteq> Fault"
  shows "test_serial_port env p baud_rates [] =
     first_response env p []
       (schedule p (case baud_rates of None \<Rightarrow> [9600, 19200, 38400, 115200] | Some bs \<Rightarrow> bs))"
  by (simp add: test_serial_port_def bauds_first_response [OF assms])

theorem discovery_first_response_witness:
  "fst (test_serial_port only_38400 ''/dev/ttyUSB0'' None []) =
     Some \<lparr>port = ''/dev/ttyUSB0'', baudrate = 38400, dtr = True, rts = False\<rparr> \<and>
   length (writes (snd (test_serial_port only_38400 ''/dev/ttyUSB0'' None []))) = 19"
proof -
  have "test_serial_port only_38400 ''/dev/ttyUSB0'' None [] =
      first_response only_38400 ''/dev/ttyUSB0'' []
        (schedule ''/dev/ttyUSB0'' [9600, 19200, 38400, 115200])"
    using discovery_first_response [OF only_38400_total, of "''/dev/ttyUSB0''" None] by simp
  then show ?thesis by (simp only: only_38400_first_response)
qed

section \<open>The configuration returned\<close>

lemma probe_found:
  "probe env p b cfg tr = Inr (Some s, tr') \<Longrightarrow>
   s = \<lparr>port = p, baudrate = b, dtr = fst cfg, rts = snd cfg\<rparr>"
  by (auto simp: probe_def then_do_eq_Inr split: if_splits)

lemma try_configurations_found:
  "try_configurations env p b cfgs tr = Inr (Some s, tr') \<Longrightarrow>
   port s = p \<and> baudrate s = b \<and> (dtr s, rts s) \<in> set cfgs"
proof (induction cfgs arbitrary: tr)
  case Nil
  then show ?case by simp
next
  case (Cons cfg cfgs)
  show ?case
  proof (cases "probe env p b cfg tr")
    case (Inl a)
    with Cons.prems show ?thesis by simp
  next
    case (Inr r)
    obtain res t where r: "r = (res, t)" by (cases r)
    show ?thesis
    proof (cases res)
      case None
      with Cons.prems Inr r have "try_configurations env p b cfgs t = Inr (Some s, tr')"
        by simp
      from Cons.IH [OF this] show ?thesis by simp
    next
      case (Some found)
      with Cons.prems Inr r have "found = s" by simp
      moreover have "found = \<lparr>port = p, baudrate = b, dtr = fst cfg, rts = snd cfg\<rparr>"
        using probe_found [of env p b cfg tr found t] Inr r Some by simp
      ultimately show ?thesis by (cases cfg) auto
    qed
  qed
qed

lemma try_baud_found:
  "try_baud env p b tr = Inr (Some s, tr') \<Longrightarrow>
   port s = p \<and> baudrate s = b \<and> (dtr s, rts s) \<in> set configurations"
  by (auto simp: try_baud_def split: sum.splits prod.splits dest: try_configurations_found)

lemma try_bauds_found:
  "fst (try_bauds env p bauds tr) = Some s \<Longrightarrow>
   port s = p \<and> baudrate s \<in> set bauds \<and> (dtr s, rts s) \<in> set configurations"
proof (induction bauds arbitrary: tr)
  case Nil
  then show ?case by simp
next
  case (Cons b bs)
  show ?case
  proof (cases "try_baud env p b tr")
    case (Inl a)
    obtain err t1 where "a = (err, t1)" by (cases a)
    with Cons.prems Inl have "fst (try_bauds env p bs t1) = Some s" by simp
    from Cons.IH [OF this] show ?thesis by simp
  next
    case (Inr c)
    obtain res t2 where c: "c = (res, t2)" by (cases c)
    show ?thesis
    proof (cases res)
      case None
      with Cons.prems Inr c have "fst (try_bauds env p bs t2) = Some s" by simp
      from Cons.IH [OF this] show ?thesis by simp
    next
      case (Some found)
      with Cons.prems Inr c have "found = s" by simp
      with try_baud_found [of env p b tr found t2] Inr c Some
      show ?thesis by simp
    qed
  qed
qed

lemma responsive_9600:
  "fst (test_serial_port responsive ''/dev/ttyUSB0'' None []) =
     Some \<lparr>port = ''/dev/ttyUSB0'', baudrate = 9600, dtr = False, rts = False\<rparr>"
  by code_simp

text \<open>
  C10. Whenever discovery returns a configuration, its port is the port name given, its
  baud rate is one of the candidate baud rates (by default 9600, 19200, 38400, 115200),
  and its (DTR, RTS) pair is one of the four fixed configurations.
\<close>

theorem discovery_returns_candidate:
  assumes "fst (test_serial_port env port_name baud_rates tr) = Some s"
  shows "port s = port_name \<and>
         baudrate s \<in> set (case baud_rates of None \<Rightarrow> [9600, 19200, 38400, 115200] | Some bs \<Rightarrow> bs) \<and>
         (dtr s, rts s) \<in> {(False, False), (True, False), (False, True), (True, True)}"
  using try_bauds_found [of env port_name _ tr s] assms
  by (simp add: test_serial_port_def configurations_def)

theorem discovery_returns_candidate_witness:
  "fst (test_serial_port responsive ''/dev/ttyUSB0'' None []) =
     Some \<lparr>port = ''/dev/ttyUSB0'', baudrate = 9600, dtr = False, rts = False\<rparr> \<and>
   (9600::int) \<in> set [9600, 19200, 38400, 115200]"
  using discovery_returns_candidate [OF responsive_9600] responsive_9600 by simp


section \<open>Faults during discovery\<close>

lemma trace_of_simps [simp]:
  "trace_of (Inl (err, tr)) = tr" "trace_of (Inr (v, tr)) = tr"
  by (simp_all add: trace_of_def)

lemma opens_perform:
  "opens [e] = [] \<Longrightarrow> opens (trace_of (perform env e tr)) = opens tr"
  by (simp add: perform_def opens_append split: reply.splits)

lemma opens_then_do:
  assumes "opens (trace_of m) = k"
    and "\<And>v t. opens t = k \<Longrightarrow> opens (trace_of (f v t)) = k"
  shows "opens (trace_of (then_do m f)) = k"
proof (cases m)
  case (Inl a)
  obtain err t where "a = (err, t)" by (cases a)
  with Inl assms(1) show ?thesis by simp
next
  case (Inr r)
  obtain v t where "r = (v, t)" by (cases r)
  with Inr assms show ?thesis by simp
qed

lemma opens_probe: "opens (trace_of (probe env p b cfg tr)) = opens tr"
  unfolding probe_def
  by (intro opens_then_do)
    (auto simp: opens_perform sleep_def built_def sync_probe reset_probe
      opens_append intro!: opens_then_do)

lemma after_close_Cons [simp]:
  "after_close (Close # es) = es"
  "e \<noteq> Close \<Longrightarrow> after_close (e # es) = after_close es"
  by (simp_all add: after_close_def)

lemma after_close_rounds [simp]:
  "after_close (concat (map silent_round cfgs) @ Close # rest) = rest"
proof -
  have "dropWhile (\<lambda>e. e \<noteq> Close) (concat (map silent_round cfgs) @ Close # rest) =
      dropWhile (\<lambda>e. e \<noteq> Close) (Close # rest)"
    by (rule dropWhile_append2) (auto simp: silent_round_def)
  then show ?thesis
    by (simp add: after_close_def)
qed

lemma probe_follow:
  assumes "l_baud (line_of tr) = b"
  shows "follow env p tr (silent_round cfg @ es) =
     (case probe env p b cfg tr of
        Inl (err, t) \<Rightarrow> follow env p (t @ [Close]) (after_close es)
      | Inr (None, t) \<Rightarrow> follow env p t es
      | Inr (Some s, t) \<Rightarrow> (Some s, t @ [Close]))"
  using assms
  by (simp add: silent_round_def probe_def perform_def sleep_def built_def sync_probe
      reset_probe split: reply.splits)


lemma baud_opens: "l_baud (line_of t) = (if opens t = [] then 0 else last (opens t))"
proof (induction t rule: rev_induct)
  case Nil
  show ?case by (simp add: line_of_def)
next
  case (snoc e t)
  then show ?case by (cases e) (simp_all add: opens_append)
qed

lemma baud_probe:
  "probe env p b cfg tr = Inr (r, t) \<Longrightarrow> l_baud (line_of t) = l_baud (line_of tr)"
  using opens_probe [of env p b cfg tr] by (simp add: baud_opens)

lemma configs_follow:
  "l_baud (line_of tr) = b \<Longrightarrow>
   follow env p tr (concat (map silent_round cfgs) @ Close # rest) =
     (case try_configurations env p b cfgs tr of
        Inl (err, t) \<Rightarrow> follow env p (t @ [Close]) rest
      | Inr (None, t) \<Rightarrow> follow env p (t @ [Close]) rest
      | Inr (Some s, t) \<Rightarrow> (Some s, t @ [Close]))"
proof (induction cfgs arbitrary: tr)
  case Nil
  show ?case by simp
next
  case (Cons cfg cfgs)
  have step: "follow env p tr (silent_round cfg @ concat (map silent_round cfgs) @ Close # rest) =
     (case probe env p b cfg tr of
        Inl (err, t) \<Rightarrow> follow env p (t @ [Close]) rest
      | Inr (None, t) \<Rightarrow> follow env p t (concat (map silent_round cfgs) @ Close # rest)
      | Inr (Some s, t) \<Rightarrow> (Some s, t @ [Close]))"
    using probe_follow [OF Cons.prems, of env p cfg "concat (map silent_round cfgs) @ Close # rest"]
    by (simp split: sum.splits prod.splits option.splits)
  show ?case
  proof (cases "probe env p b cfg tr")
    case (Inl a)
    obtain err t where "a = (err, t)" by (cases a)
    with Inl step show ?thesis by simp
  next
    case (Inr r)
    obtain res t where r: "r = (res, t)" by (cases r)
    show ?thesis
    proof (cases res)
      case None
      have "l_baud (line_of t) = b"
        using baud_probe [of env p b cfg tr res t] Inr r Cons.prems by simp
      from Cons.IH [OF this] show ?thesis using Inr r None step by simp
    next
      case (Some s)
      with Inr r step show ?thesis by simp
    qed
  qed
qed

lemma bauds_follow: "try_bauds env p bauds tr = follow env p tr (schedule p bauds)"
proof (induction bauds arbitrary: tr)
  case Nil
  show ?case by (simp add: schedule_def)
next
  case (Cons b bs)
  have sch: "schedule p (b # bs) =
      Open p b # (concat (map silent_round configurations) @ Close # schedule p bs)"
    by (simp add: schedule_def)
  have "l_baud (line_of (tr @ [Open p b])) = b" by simp
  from configs_follow [OF this, of env p configurations "schedule p bs"]
  show ?case
    unfolding sch
    by (simp add: try_baud_def perform_def Cons.IH
        split: reply.splits sum.splits prod.splits option.splits)
qed

lemma first_write_faults_follow:
  "fst (follow first_write_faults ''/dev/ttyUSB0'' []
      (schedule ''/dev/ttyUSB0'' [9600, 19200, 38400, 115200])) = None \<and>
   length (writes (snd (follow first_write_faults ''/dev/ttyUSB0'' []
      (schedule ''/dev/ttyUSB0'' [9600, 19200, 38400, 115200])))) = 25"
  by code_simp

text \<open>
  C5 (as the code has it). For every transport, faulting or not, discovery is the
  following of the fixed schedule in which a fault, in the opening of the port or in
  any later call, is caught and ends the work at the current baud rate only: the port
  is closed if it had been opened, the steps that the schedule still holds for this
  baud rate, among them its configurations not yet tried, are skipped, and the search
  goes on with the next baud rate in order. It never aborts the discovery.
\<close>

theorem discovery_with_faults:
  "test_serial_port env p baud_rates [] =
     follow env p []
       (schedule p (case baud_rates of None \<Rightarrow> [9600, 19200, 38400, 115200] | Some bs \<Rightarrow> bs))"
  by (simp add: test_serial_port_def bauds_follow)

theorem discovery_with_faults_witness:
  "fst (test_serial_port first_write_faults ''/dev/ttyUSB0'' None []) = None \<and>
   length (writes (snd (test_serial_port first_write_faults ''/dev/ttyUSB0'' None []))) = 25"
proof -
  have "test_serial_port first_write_faults ''/dev/ttyUSB0'' None [] =
      follow first_write_faults ''/dev/ttyUSB0'' []
        (schedule ''/dev/ttyUSB0'' [9600, 19200, 38400, 115200])"
    using discovery_with_faults [of first_write_faults "''/dev/ttyUSB0''" None] by simp
  then show ?thesis by (simp only: first_write_faults_follow)
qed

text \<open>
  C5 as claimed fails: with the single baud rate 9600 and a transport whose first write
  faults, the fault at the candidate (9600, false, false) ends the discovery; the
  candidates (true,false), (false,true) and (true,true) at 9600 baud are never tried.
\<close>

theorem discovery_fault_skips_counterexample:
  "test_serial_port first_write_faults ''/dev/ttyUSB0'' (Some [9600]) [] =
     (None, [Open ''/dev/ttyUSB0'' 9600, SetDTR False, SetRTS False, Sleep 500, ResetInput,
             ResetOutput, Write [0x7F, 0x80, 0x01, 0x11, 0xA1, 0xFF], Close])"
  by code_simp


section \<open>The sequence counter\<close>

lemma and_127: "(k::int) AND 127 = k mod 128"
  using take_bit_eq_mask [of 7 k] by (simp add: take_bit_eq_mod mask_eq_exp_minus_1)

lemma or_128:
  assumes "0 \<le> k" and "k < 128"
  shows "(128::int) OR k = 128 + k"
proof -
  have "k div 128 = 0" using assms by simp
  then have "\<not> bit k 7" by (simp add: bit_iff_odd)
  then have "k AND 2 ^ 7 = 0" using and_exp_eq_0_iff_not_bit [of k 7] by blast
  then have "128 AND k = 0" by (simp add: and.commute)
  with plus_and_or [of 128 k] show ?thesis by simp
qed

lemma high_bit_or: "(128 OR k) AND 128 = (128::int)"
  by (rule bit_eqI) (auto simp: bit_and_iff bit_or_iff)

lemma advance_eq: "advance s = 128 + (s + 1) mod 128"
  by (simp add: advance_def and_127 or_128)

lemma seq_byte: "0 \<le> 128 OR (k AND 127)" "128 OR (k AND 127) < (256::int)"
  by (simp_all add: and_127 or_128)

lemma advance_pow: "(advance ^^ n) 128 = 128 + int n mod 128"
proof (induction n)
  case 0
  show ?case by simp
next
  case (Suc n)
  have "(128 + int n mod 128 + 1) mod 128 = (128 + (int n mod 128 + 1)) mod (128::int)"
    by (simp add: add.assoc)
  also have "\<dots> = (int n mod 128 + 1) mod 128"
    by (rule mod_add_self1)
  also have "\<dots> = (int n + 1) mod 128"
    by (rule mod_add_left_eq)
  finally have "(128 + int n mod 128 + 1) mod 128 = (int n + 1) mod (128::int)" .
  with Suc show ?case by (simp add: advance_eq add.commute)
qed

lemma advance_pow_or: "(advance ^^ n) 128 = 128 OR (int n mod 128)"
  by (simp add: advance_pow or_128)

lemma advance_pow_high: "(advance ^^ n) 128 AND 128 = 128"
  by (simp only: advance_pow_or high_bit_or)

lemma run_commands_append:
  "run_commands env (pre @ post) s tr =
     (case run_commands env pre s tr of
        Inl err \<Rightarrow> Inl err
      | Inr (s1, t1) \<Rightarrow> run_commands env post s1 t1)"
proof (induction pre arbitrary: s tr)
  case Nil
  show ?case by simp
next
  case (Cons c pre)
  obtain cmd name where c: "c = (cmd, name)" by (cases c)
  show ?case
    by (simp add: c Cons.IH split: sum.splits prod.splits)
qed

lemma run_commands_sequence:
  "run_commands env cmds s tr = Inr (s', tr') \<Longrightarrow> s' = (advance ^^ length cmds) s"
proof (induction cmds arbitrary: s tr)
  case Nil
  then show ?case by simp
next
  case (Cons c cmds)
  obtain cmd name where c: "c = (cmd, name)" by (cases c)
  show ?case
  proof (cases "send_command env cmd s tr")
    case (Inl a)
    with Cons.prems c show ?thesis by simp
  next
    case (Inr r)
    obtain u t where "r = (u, t)" by (cases r)
    with Cons.prems c Inr have "run_commands env cmds (advance s) t = Inr (s', tr')"
      by (simp add: advance_def)
    from Cons.IH [OF this] show ?thesis by (simp add: funpow_swap1)
  qed
qed

lemma frame_built:
  assumes "0 \<le> command" "command < 256" "0 \<le> sequence" "sequence < 256"
  shows "create_ssp_packet command sequence None = Inr (frame command sequence)"
proof -
  have "create_ssp_packet command sequence None = create_ssp_packet command sequence (Some [])"
    by (simp add: create_ssp_packet_def)
  then show ?thesis
    using packet_built [OF assms, of "[]"] by (simp add: frame_def)
qed

lemma send_command_trace:
  assumes nf: "\<forall>h e. env h e \<noteq> Fault"
    and s: "0 \<le> s" "s < 256" and c: "0 \<le> cmd" "cmd < 256"
  shows "send_command env cmd s tr =
     Inr ((), tr @ exchange (frame cmd s) @
       (if cmd = CMD_POLL \<and> env (tr @ [Write (frame cmd s), Sleep 500]) (Read 64) \<noteq> Reply []
        then exchange (frame CMD_POLL (0x80 OR ((s + 1) AND 0x7F))) @
             exchange (frame CMD_POLL (0x80 OR ((s + 2) AND 0x7F))) @
             exchange (frame CMD_POLL (0x80 OR ((s + 3) AND 0x7F)))
        else []))"
proof -
  have p: "\<And>q. 0 \<le> q \<Longrightarrow> q < 256 \<Longrightarrow> create_ssp_packet CMD_POLL q None = Inr (frame CMD_POLL q)"
    by (rule frame_built) (simp_all add: CMD_POLL_def)
  show ?thesis
    by (simp add: send_command_def poll_once_def perform_total [OF nf] reply_empty [OF nf]
        sleep_def built_def p frame_built [OF c s] seq_byte exchange_def add.commute)
qed

lemma frames:
  "frame CMD_SYNC 0x80 = [0x7F, 0x80, 1, 0x11, 161, 255]"
  "frame CMD_POLL 0x83 = [0x7F, 0x83, 1, 7, 114, 101]"
  "frame CMD_POLL 0x84 = [0x7F, 0x84, 1, 7, 119, 233]"
  "frame CMD_POLL 0x85 = [0x7F, 0x85, 1, 7, 171, 179]"
  "frame CMD_POLL 0x86 = [0x7F, 0x86, 1, 7, 207, 92]"
  by code_simp+

lemma counter_values:
  "(128::int) OR (129 AND 127) = 129" "(128::int) OR (130 AND 127) = 130"
  "(128::int) OR (131 AND 127) = 131" "(128::int) OR (132 AND 127) = 132"
  "(128::int) OR (133 AND 127) = 133" "(128::int) OR (134 AND 127) = 134"
  by simp_all

lemma run_session_trace:
  assumes nf: "\<forall>h e. env h e \<noteq> Fault"
  shows "\<exists>extra. run_session env cfg tr =
       Inr (0x84, tr @ [Open (port cfg) (baudrate cfg), SetDTR (dtr cfg), SetRTS (rts cfg),
                        ResetInput, ResetOutput] @
              exchange (frame CMD_SYNC 0x80) @ exchange (frame CMD_SETUP_REQUEST 0x81) @
              exchange (frame CMD_ENABLE 0x82) @ exchange (frame CMD_POLL 0x83) @
              extra @ [Close]) \<and>
     (extra = [] \<or>
      extra = exchange (frame CMD_POLL 0x84) @ exchange (frame CMD_POLL 0x85) @
              exchange (frame CMD_POLL 0x86))"
proof -
  have c: "CMD_SYNC \<noteq> CMD_POLL" "CMD_SETUP_REQUEST \<noteq> CMD_POLL" "CMD_ENABLE \<noteq> CMD_POLL"
    "0 \<le> CMD_SYNC" "CMD_SYNC < 256" "0 \<le> CMD_SETUP_REQUEST" "CMD_SETUP_REQUEST < 256"
    "0 \<le> CMD_ENABLE" "CMD_ENABLE < 256" "0 \<le> CMD_POLL" "CMD_POLL < 256"
    by (simp_all add: CMD_SYNC_def CMD_SETUP_REQUEST_def CMD_ENABLE_def CMD_POLL_def)
  show ?thesis
    by (simp add: run_session_def commands_def perform_total [OF nf]
        send_command_trace [OF nf] c counter_values)
qed

lemma silent_two_commands: "run_commands silent (take 2 commands) 0x80 [] =
   Inr (0x82, exchange [127, 128, 1, 17, 161, 255] @ exchange [127, 129, 1, 5, 216, 243])"
  by code_simp


lemma silent_total: "\<forall>h e. silent h e \<noteq> Fault"
  by (simp add: silent_def)

text \<open>
  C6. The counter update is \<open>s \<mapsto> 0x80 | ((s + 1) & 0x7F)\<close>: after \<open>n\<close> updates from
  0x80 the counter is \<open>0x80 | (n mod 128)\<close>, with the bit 0x80 set. The command loop
  updates it after every command whatever was read: when the commands \<open>pre\<close> have
  been run from 0x80, on any transport, the counter is the one after \<open>length pre\<close>
  updates and the remaining commands are run from it. A command run starts at 0x80:
  on a transport that never faults it sends SYNC, SETUP_REQUEST, ENABLE and POLL with
  the sequence bytes 0x80, 0x81, 0x82 and 0x83 and ends with the counter 0x84.
\<close>

theorem sequence_counter:
  "(advance ^^ n) 0x80 = 0x80 OR (int n mod 128) \<and>
   (advance ^^ n) 0x80 AND 0x80 = 0x80 \<and>
   (run_commands env pre 0x80 tr = Inr (s, t) \<longrightarrow>
      s = (advance ^^ length pre) 0x80 \<and>
      run_commands env (pre @ post) 0x80 tr = run_commands env post s t) \<and>
   ((\<forall>h e. env' h e \<noteq> Fault) \<longrightarrow>
      (\<exists>extra. run_session env' cfg tr' =
         Inr (0x84, tr' @ [Open (port cfg) (baudrate cfg), SetDTR (dtr cfg), SetRTS (rts cfg),
                          ResetInput, ResetOutput] @
                exchange (frame CMD_SYNC 0x80) @ exchange (frame CMD_SETUP_REQUEST 0x81) @
                exchange (frame CMD_ENABLE 0x82) @ exchange (frame CMD_POLL 0x83) @
                extra @ [Close]) \<and>
       (extra = [] \<or>
        extra = exchange (frame CMD_POLL 0x84) @ exchange (frame CMD_POLL 0x85) @
                exchange (frame CMD_POLL 0x86))))"
proof (intro conjI impI)
  show "(advance ^^ n) 0x80 = 0x80 OR (int n mod 128)"
    by (rule advance_pow_or)
  show "(advance ^^ n) 0x80 AND 0x80 = 0x80"
    by (rule advance_pow_high)
next
  assume r: "run_commands env pre 0x80 tr = Inr (s, t)"
  show "s = (advance ^^ length pre) 0x80"
    using run_commands_sequence [OF r] .
  show "run_commands env (pre @ post) 0x80 tr = run_commands env post s t"
    by (simp add: run_commands_append r)
next
  assume nf: "\<forall>h e. env' h e \<noteq> Fault"
  show "\<exists>extra. run_session env' cfg tr' =
         Inr (0x84, tr' @ [Open (port cfg) (baudrate cfg), SetDTR (dtr cfg), SetRTS (rts cfg),
                          ResetInput, ResetOutput] @
                exchange (frame CMD_SYNC 0x80) @ exchange (frame CMD_SETUP_REQUEST 0x81) @
                exchange (frame CMD_ENABLE 0x82) @ exchange (frame CMD_POLL 0x83) @
                extra @ [Close]) \<and>
       (extra = [] \<or>
        extra = exchange (frame CMD_POLL 0x84) @ exchange (frame CMD_POLL 0x85) @
                exchange (frame CMD_POLL 0x86))"
    by (rule run_session_trace [OF nf])
qed

theorem sequence_counter_witness:
  "(\<exists>extra. run_session silent
        \<lparr>port = ''/dev/ttyUSB0'', baudrate = 9600, dtr = False, rts = False\<rparr> [] =
       Inr (0x84, [Open ''/dev/ttyUSB0'' 9600, SetDTR False, SetRTS False,
                   ResetInput, ResetOutput] @
              exchange (frame CMD_SYNC 0x80) @ exchange (frame CMD_SETUP_REQUEST 0x81) @
              exchange (frame CMD_ENABLE 0x82) @ exchange (frame CMD_POLL 0x83) @
              extra @ [Close]) \<and>
     (extra = [] \<or>
      extra = exchange (frame CMD_POLL 0x84) @ exchange (frame CMD_POLL 0x85) @
              exchange (frame CMD_POLL 0x86))) \<and>
   run_commands silent (take 2 commands) 0x80 [] =
     Inr (0x82, exchange [127, 128, 1, 17, 161, 255] @ exchange [127, 129, 1, 5, 216, 243]) \<and>
   (0x82::int) = (advance ^^ 2) 0x80 \<and>
   (advance ^^ 2) 0x80 = 0x80 OR (int 2 mod 128) \<and>
   run_commands silent (take 2 commands @ drop 2 commands) 0x80 [] =
     run_commands silent (drop 2 commands) 0x82
       (exchange [127, 128, 1, 17, 161, 255] @ exchange [127, 129, 1, 5, 216, 243])"
proof -
  have session: "\<exists>extra. run_session silent
        \<lparr>port = ''/dev/ttyUSB0'', baudrate = 9600, dtr = False, rts = False\<rparr> [] =
       Inr (0x84, [Open ''/dev/ttyUSB0'' 9600, SetDTR False, SetRTS False,
                   ResetInput, ResetOutput] @
              exchange (frame CMD_SYNC 0x80) @ exchange (frame CMD_SETUP_REQUEST 0x81) @
              exchange (frame CMD_ENABLE 0x82) @ exchange (frame CMD_POLL 0x83) @
              extra @ [Close]) \<and>
     (extra = [] \<or>
      extra = exchange (frame CMD_POLL 0x84) @ exchange (frame CMD_POLL 0x85) @
              exchange (frame CMD_POLL 0x86))"
    using sequence_counter [of 0 silent "[]" "[]" "0x80" "[]" "[]" silent
        "\<lparr>port = ''/dev/ttyUSB0'', baudrate = 9600, dtr = False, rts = False\<rparr>" "[]"]
      silent_total
    by simp
  have loop: "run_commands silent (take 2 commands) 0x80 [] =
     Inr (0x82, exchange [127, 128, 1, 17, 161, 255] @ exchange [127, 129, 1, 5, 216, 243]) \<and>
   (0x82::int) = (advance ^^ 2) 0x80 \<and>
   (advance ^^ 2) 0x80 = 0x80 OR (int 2 mod 128) \<and>
   run_commands silent (take 2 commands @ drop 2 commands) 0x80 [] =
     run_commands silent (drop 2 commands) 0x82
       (exchange [127, 128, 1, 17, 161, 255] @ exchange [127, 129, 1, 5, 216, 243])"
    using sequence_counter [of 2 silent "take 2 commands" "[]" "0x82"
        "exchange [127, 128, 1, 17, 161, 255] @ exchange [127, 129, 1, 5, 216, 243]"
        "drop 2 commands" silent]
      silent_two_commands silent_total
    by (simp add: commands_def)
  from session loop show ?thesis by (rule conjI)
qed

section \<open>The extra polls\<close>

lemma first_read_only_total: "\<forall>h e. first_read_only h e \<noteq> Fault"
  by (simp add: first_read_only_def split: event.splits)


text \<open>
  C7. On a transport that never faults, a command sent with the counter \<open>s\<close> is one
  write, the delay of 500 ms and a read of 64 bytes; exactly when the command is POLL
  and that read returns bytes, three more POLL packets follow at once, the i-th with
  the sequence byte \<open>0x80 | ((s + i) & 0x7F)\<close>, each followed by the same delay and a
  read of 64 bytes, whatever these reads return.
\<close>

theorem extra_polls_after_poll:
  assumes "\<forall>h e. env h e \<noteq> Fault"
    and "0 \<le> s" "s < 256" and "0 \<le> cmd" "cmd < 256"
  shows "send_command env cmd s tr =
     Inr ((), tr @ exchange (frame cmd s) @
       (if cmd = CMD_POLL \<and> env (tr @ [Write (frame cmd s), Sleep 500]) (Read 64) \<noteq> Reply []
        then exchange (frame CMD_POLL (0x80 OR ((s + 1) AND 0x7F))) @
             exchange (frame CMD_POLL (0x80 OR ((s + 2) AND 0x7F))) @
             exchange (frame CMD_POLL (0x80 OR ((s + 3) AND 0x7F)))
        else []))"
  using assms by (rule send_command_trace)

theorem extra_polls_after_poll_witness:
  "send_command first_read_only CMD_POLL 0x83 [] =
     Inr ((), exchange [0x7F, 0x83, 1, 7, 114, 101] @ exchange [0x7F, 0x84, 1, 7, 119, 233] @
              exchange [0x7F, 0x85, 1, 7, 171, 179] @ exchange [0x7F, 0x86, 1, 7, 207, 92])"
proof -
  have answered: "first_read_only ([] @ [Write (frame CMD_POLL 0x83), Sleep 500]) (Read 64) \<noteq>
      Reply []"
    by (simp add: first_read_only_def)
  have "send_command first_read_only CMD_POLL 0x83 [] =
     Inr ((), [] @ exchange (frame CMD_POLL 0x83) @
       (if CMD_POLL = CMD_POLL \<and>
           first_read_only ([] @ [Write (frame CMD_POLL 0x83), Sleep 500]) (Read 64) \<noteq> Reply []
        then exchange (frame CMD_POLL (0x80 OR ((0x83 + 1) AND 0x7F))) @
             exchange (frame CMD_POLL (0x80 OR ((0x83 + 2) AND 0x7F))) @
             exchange (frame CMD_POLL (0x80 OR ((0x83 + 3) AND 0x7F)))
        else []))"
    by (rule extra_polls_after_poll [OF first_read_only_total]) (simp_all add: CMD_POLL_def)
  then show ?thesis
    using answered by (simp add: frames counter_values)
qed

section \<open>The exit status\<close>

lemma main_ok: "fst (main [hopper] responsive) = 0"
  by code_simp


text \<open>
  C8 (as the code has it). \<open>main\<close> returns 0 exactly when a device with a device name
  was found, discovery returned a configuration and the command run ended without a
  fault; in every other case, whichever of the three failures it is, it returns 1.
\<close>

theorem main_exit_status:
  "fst (main comports env) =
     (if \<exists>port_name found tr v tr'.
          identify_device comports = Some port_name \<and> port_name \<noteq> [] \<and>
          test_serial_port env port_name None [] = (Some found, tr) \<and>
          run_session env found tr = Inr (v, tr')
      then 0 else 1)"
proof (cases "identify_device comports")
  case None
  then show ?thesis by (simp add: main_def)
next
  case dev: (Some port_name)
  show ?thesis
  proof (cases "port_name = []")
    case True
    with dev show ?thesis by (simp add: main_def)
  next
    case False
    obtain res tr where d: "test_serial_port env port_name None [] = (res, tr)"
      by (cases "test_serial_port env port_name None []")
    show ?thesis
    proof (cases res)
      case None
      with dev False d show ?thesis by (simp add: main_def)
    next
      case (Some found)
      show ?thesis
      proof (cases "run_session env found tr")
        case (Inl a)
        obtain err t where "a = (err, t)" by (cases a)
        with dev False d Some Inl show ?thesis by (simp add: main_def)
      next
        case (Inr r)
        obtain v t where "r = (v, t)" by (cases r)
        with dev False d Some Inr show ?thesis by (simp add: main_def)
      qed
    qed
  qed
qed


theorem main_exit_status_witness:
  "\<exists>port_name found tr v tr'.
     identify_device [hopper] = Some port_name \<and> port_name \<noteq> [] \<and>
     test_serial_port responsive port_name None [] = (Some found, tr) \<and>
     run_session responsive found tr = Inr (v, tr')"
  using main_exit_status [of "[hopper]" responsive] main_ok
  by (simp split: if_splits)

text \<open>
  C8 as claimed fails: no device found, no configuration found and a fault during the
  command run (here the second opening of the port faults) all give the status 1, so
  the three failure statuses do not differ from each other.
\<close>

theorem main_failure_status_counterexample:
  "identify_device [] = None \<and> fst (main [] silent) = 1 \<and>
   fst (test_serial_port silent ''/dev/ttyUSB0'' None []) = None \<and>
   fst (main [hopper] silent) = 1 \<and>
   fst (test_serial_port second_open_faults ''/dev/ttyUSB0'' None []) =
     Some \<lparr>port = ''/dev/ttyUSB0'', baudrate = 9600, dtr = False, rts = False\<rparr> \<and>
   fst (main [hopper] second_open_faults) = 1"
  by code_simp

end
